theory Spec2Isabelle
  imports Complex_Main "HOL-Library.Multiset"
begin

section \<open>Values of the host language\<close>

text \<open>
  Texts are lists of characters. \<open>upper\<close> stands for both Python's \<open>str.upper\<close> and SQL's
  \<open>UPPER\<close>, and \<open>strip\<close> for Python's \<open>str.strip\<close>; they are written out for the ASCII
  range, where the two upper-casings agree. No theorem below depends on how they act
  on any particular character.
\<close>

definition upper_char :: "char \<Rightarrow> char" where
  "upper_char c =
     (case map_of (zip ''abcdefghijklmnopqrstuvwxyz'' ''ABCDEFGHIJKLMNOPQRSTUVWXYZ'') c of
        None \<Rightarrow> c
      | Some C \<Rightarrow> C)"

definition upper :: "string \<Rightarrow> string" where
  "upper s = map upper_char s"

definition is_space :: "char \<Rightarrow> bool" where
  "is_space c = (let n = (of_char c :: nat) in (9 \<le> n \<and> n \<le> 13) \<or> (28 \<le> n \<and> n \<le> 32))"

definition strip :: "string \<Rightarrow> string" where
  "strip s = rev (dropWhile is_space (rev (dropWhile is_space s)))"

text \<open>
  A Python \<open>float\<close>: a finite value, an infinity or a NaN. The handlers only compare a
  float with the integers 1 and 500; a comparison with NaN is false either way.
\<close>

datatype pyfloat = Finite real | PosInf | NegInf | NaN

fun float_lt_int :: "pyfloat \<Rightarrow> int \<Rightarrow> bool" where
  "float_lt_int (Finite x) k = (x < of_int k)"
| "float_lt_int NegInf k = True"
| "float_lt_int PosInf k = False"
| "float_lt_int NaN k = False"

fun float_gt_int :: "pyfloat \<Rightarrow> int \<Rightarrow> bool" where
  "float_gt_int (Finite x) k = (x > of_int k)"
| "float_gt_int PosInf k = True"
| "float_gt_int NegInf k = False"
| "float_gt_int NaN k = False"

text \<open>Exceptions that the modelled code can raise.\<close>

datatype error = ForeignKeyViolation | UniqueViolation | StringDataRightTruncation

section \<open>The tables of \<open>database.py\<close>\<close>

text \<open>
  One record per table of \<open>init_db\<close>, fields named after the columns with the alias the
  queries use as a prefix (\<open>u\<close>, \<open>q\<close>, \<open>pc\<close>, \<open>pcu\<close>). A table is the list of its rows in
  insertion order, and a select without \<open>ORDER BY\<close> returns its rows in that order
  (SQL leaves it open). The columns \<open>users.created_at\<close>, \<open>promo_codes.created_at\<close>,
  \<open>promo_code_usage.id\<close> and \<open>promo_code_usage.used_at\<close> are read by none of the modelled
  queries and are left out; a usage row inserted twice is two equal elements of the list.
\<close>

datatype gender = Muzhskoy | Zhenskiy

record user_row =
  u_user_id :: int
  u_username :: "string option"
  u_first_name :: "string option"
  u_utm_source :: "string option"
  u_utm_medium :: "string option"
  u_utm_campaign :: "string option"

record link_stat_row =
  ls_utm_source :: "string option"
  ls_utm_medium :: "string option"
  ls_utm_campaign :: "string option"
  ls_user_id :: int

record questionnaire_row =
  q_id :: int
  q_user_id :: int
  q_gender :: "gender option"
  q_age :: "int option"
  q_weight :: "pyfloat option"
  q_workouts_per_week :: "int option"
  q_diet :: "string option"
  q_problem_or_injury :: "string option"
  q_created_at :: nat
  q_sent_to_admin :: bool

record promo_row =
  pc_id :: int
  pc_code :: string
  pc_description :: "string option"
  pc_is_single_use :: bool

record usage_row =
  pcu_user_id :: int
  pcu_promo_code_id :: int
  pcu_questionnaire_id :: "int option"

section \<open>Sessions, messages and the world\<close>

datatype fsm_state =
  waiting_gender | waiting_age | waiting_weight | waiting_workouts | waiting_diet
| waiting_problem | waiting_promo_code

text \<open>The data bag of a session: \<open>data.get(key)\<close> of an absent key is \<open>None\<close>.\<close>

record answers =
  gender :: "gender option"
  age :: "int option"
  weight :: "pyfloat option"
  workouts_per_week :: "int option"
  diet :: "string option"
  problem_or_injury :: "string option"

record session =
  state :: "fsm_state option"
  data :: answers

definition no_answers :: answers where
  "no_answers = \<lparr>gender = None, age = None, weight = None, workouts_per_week = None,
     diet = None, problem_or_injury = None\<rparr>"

definition cleared :: session where
  "cleared = \<lparr>state = None, data = no_answers\<rparr>"

text \<open>
  What a handler answers to the user. Each constructor is one fixed text of
  \<open>handlers.py\<close>; \<open>PromoApplied\<close> carries the upper-cased code and the description that
  the text interpolates.
\<close>

datatype reply =
  AgeOutOfRange | EnterNumber
| AskWeight | WeightOutOfRange | EnterDecimal
| AskWorkouts | WorkoutsOutOfRange | AskDiet
| ThankYou
| PromoApplied string "string option" | PromoAlreadyUsed | PromoNotFound

text \<open>
  The text of \<open>build_questionnaire_text\<close>, as the list of the pieces the function appends.
  \<open>TUser None\<close> is the user line with the fixed default name; \<open>TPromo\<close> carries the codes
  that the text joins with commas.
\<close>

datatype text_part =
  THeader | TUser "string option" | THandle string | TId int
| TGender gender | TAge int | TWeight pyfloat | TWorkouts int | TDiet string
| TProblem string | TPromo "string list" | TDate nat

text \<open>The warning of a missing bot and the error of a send that raised.\<close>

datatype log_record =
  BotNotSet | SendFailed int

text \<open>
  The result row of \<open>get_questionnaire_details\<close> and \<open>get_new_questionnaires\<close>: the
  questionnaire, the user's names and the aggregated codes (an \<open>ARRAY_AGG\<close> over a left
  join, so a questionnaire without usages has the one element \<open>NULL\<close>).
\<close>

record details =
  d_q :: questionnaire_row
  d_username :: "string option"
  d_first_name :: "string option"
  d_promo_codes :: "string option list"

text \<open>
  The world a handler runs in: the tables, the sequence of \<open>questionnaires.id\<close>, the
  sessions of the memory storage by user id, the operator ids of \<open>ADMIN_IDS\<close> (already
  parsed), the bot (\<open>None\<close> until \<open>set_bot\<close>; the function tells whether \<open>send_message\<close> to
  a chat returns or raises), and what the code has emitted so far: every
  \<open>send_message\<close> call, every answer to a user, every log record of error or warning
  level.
\<close>

record world =
  users :: "user_row list"
  link_stats :: "link_stat_row list"
  questionnaires :: "questionnaire_row list"
  questionnaires_id_seq :: int
  promo_codes :: "promo_row list"
  promo_code_usage :: "usage_row list"
  fsm :: "int \<Rightarrow> session"
  admin_ids :: "int list"
  bot_instance :: "(int \<Rightarrow> text_part list \<Rightarrow> bool) option"
  send_calls :: "(int \<times> text_part list) list"
  answered :: "(int \<times> reply) list"
  log_records :: "log_record list"

section \<open>Promo codes: \<open>check_promo_code\<close>, \<open>process_promo_code\<close> and the attachment\<close>

text \<open>
  \<open>INSERT INTO promo_code_usage\<close>. The table has three foreign keys and no unique
  constraint but the serial primary key, so the insert fails exactly on a dangling
  reference and \<open>ON CONFLICT DO NOTHING\<close> never finds a conflict.
\<close>

definition insert_promo_code_usage ::
  "world \<Rightarrow> int \<Rightarrow> int \<Rightarrow> int option \<Rightarrow> error + world" where
  "insert_promo_code_usage w uid promo_id qid =
     (if uid \<in> set (map u_user_id (users w))
         \<and> promo_id \<in> set (map pc_id (promo_codes w))
         \<and> (case qid of None \<Rightarrow> True | Some q \<Rightarrow> q \<in> set (map q_id (questionnaires w)))
      then Inr (w\<lparr>promo_code_usage := promo_code_usage w @
             [\<lparr>pcu_user_id = uid, pcu_promo_code_id = promo_id, pcu_questionnaire_id = qid\<rparr>]\<rparr>)
      else Inl ForeignKeyViolation)"

text \<open>\<open>SELECT * FROM promo_codes WHERE UPPER(code) = UPPER($1)\<close>, first row.\<close>

definition check_promo_code :: "world \<Rightarrow> string \<Rightarrow> promo_row option" where
  "check_promo_code w promo_code =
     find (\<lambda>pc. upper (pc_code pc) = upper promo_code) (promo_codes w)"

text \<open>The two existence queries of \<open>process_promo_code\<close> and the one of the attachment.\<close>

definition used_at_all :: "world \<Rightarrow> int \<Rightarrow> bool" where
  "used_at_all w promo_id =
     (filter (\<lambda>r. pcu_promo_code_id r = promo_id) (promo_code_usage w) \<noteq> [])"

definition pending_of_user :: "world \<Rightarrow> int \<Rightarrow> int \<Rightarrow> bool" where
  "pending_of_user w uid promo_id =
     (filter (\<lambda>r. pcu_user_id r = uid \<and> pcu_promo_code_id r = promo_id
                 \<and> pcu_questionnaire_id r = None) (promo_code_usage w) \<noteq> [])"

definition attached_rows :: "world \<Rightarrow> int \<Rightarrow> usage_row list" where
  "attached_rows w promo_id =
     filter (\<lambda>r. pcu_promo_code_id r = promo_id \<and> pcu_questionnaire_id r \<noteq> None)
       (promo_code_usage w)"

text \<open>
  The handler of the state \<open>waiting_promo_code\<close>, for the user \<open>uid\<close> and the text of the
  message. An exception of the insert leaves the handler before it answers or clears
  the session.
\<close>

definition process_promo_code :: "world \<Rightarrow> int \<Rightarrow> string \<Rightarrow> error + world" where
  "process_promo_code w uid text =
     (let promo_code = strip text in
      case check_promo_code w promo_code of
        None \<Rightarrow>
          Inr (w\<lparr>answered := answered w @ [(uid, PromoNotFound)],
                 fsm := (fsm w)(uid := cleared)\<rparr>)
      | Some promo \<Rightarrow>
          if pc_is_single_use promo \<and> used_at_all w (pc_id promo)
          then Inr (w\<lparr>answered := answered w @ [(uid, PromoAlreadyUsed)],
                      fsm := (fsm w)(uid := cleared)\<rparr>)
          else
            (case (if pending_of_user w uid (pc_id promo) then Inr w
                   else insert_promo_code_usage w uid (pc_id promo) None) of
               Inl e \<Rightarrow> Inl e
             | Inr w1 \<Rightarrow>
                 Inr (w1\<lparr>answered := answered w1 @
                           [(uid, PromoApplied (upper promo_code) (pc_description promo))],
                         fsm := (fsm w1)(uid := cleared)\<rparr>)))"

text \<open>
  The first query of \<open>attach_user_promo_codes_to_questionnaire\<close>: the pending usages of
  the user joined with their promo codes, as pairs \<open>(promo_code_id, is_single_use)\<close>.
\<close>

definition pending_usages :: "world \<Rightarrow> int \<Rightarrow> (int \<times> bool) list" where
  "pending_usages w uid =
     concat (map (\<lambda>pcu. map (\<lambda>pc. (pcu_promo_code_id pcu, pc_is_single_use pc))
                          (filter (\<lambda>pc. pc_id pc = pcu_promo_code_id pcu) (promo_codes w)))
       (filter (\<lambda>pcu. pcu_user_id pcu = uid \<and> pcu_questionnaire_id pcu = None)
          (promo_code_usage w)))"

text \<open>
  The loop over the fetched usages, with the counter. The single-use check reads the
  table as it is at that iteration; a failed insert is caught by the bare \<open>except\<close>,
  whose body is \<open>pass\<close>, and the loop goes on.
\<close>

fun attach_loop :: "world \<Rightarrow> int \<Rightarrow> int \<Rightarrow> (int \<times> bool) list \<Rightarrow> nat \<Rightarrow> nat \<times> world" where
  "attach_loop w uid qid [] attached_count = (attached_count, w)"
| "attach_loop w uid qid ((promo_id, is_single_use) # rest) attached_count =
     (if is_single_use \<and> attached_rows w promo_id \<noteq> []
      then attach_loop w uid qid rest attached_count
      else
        (case insert_promo_code_usage w uid promo_id (Some qid) of
           Inr w1 \<Rightarrow> attach_loop w1 uid qid rest (attached_count + 1)
         | Inl e \<Rightarrow> attach_loop w uid qid rest attached_count))"

definition attach_user_promo_codes_to_questionnaire ::
  "world \<Rightarrow> int \<Rightarrow> int \<Rightarrow> nat \<times> world" where
  "attach_user_promo_codes_to_questionnaire w uid qid =
     attach_loop w uid qid (pending_usages w uid) 0"

section \<open>Users and questionnaires\<close>

text \<open>Python's truth value of an optional text: neither \<open>None\<close> nor empty.\<close>

definition truthy :: "string option \<Rightarrow> bool" where
  "truthy s = (case s of None \<Rightarrow> False | Some t \<Rightarrow> t \<noteq> [])"

definition fits :: "nat \<Rightarrow> string option \<Rightarrow> bool" where
  "fits n s = (case s of None \<Rightarrow> True | Some t \<Rightarrow> length t \<le> n)"

text \<open>
  \<open>get_or_create_user\<close>. \<open>user_id\<close> is the primary key of \<open>users\<close>, so the select finds
  at most one row. The insert of a new user fails when a text does not fit its
  \<open>VARCHAR(255)\<close> column.
\<close>

definition get_or_create_user ::
  "world \<Rightarrow> int \<Rightarrow> string option \<Rightarrow> string option \<Rightarrow> string option \<Rightarrow> string option
     \<Rightarrow> string option \<Rightarrow> error + ((user_row \<times> bool) \<times> world)" where
  "get_or_create_user w user_id username first_name utm_source utm_medium utm_campaign =
     (case find (\<lambda>u. u_user_id u = user_id) (users w) of
        Some user \<Rightarrow> Inr ((user, False), w)
      | None \<Rightarrow>
          if \<not> (fits 255 username \<and> fits 255 first_name \<and> fits 255 utm_source
                \<and> fits 255 utm_medium \<and> fits 255 utm_campaign)
          then Inl StringDataRightTruncation
          else
            let user = \<lparr>u_user_id = user_id, u_username = username, u_first_name = first_name,
                         u_utm_source = utm_source, u_utm_medium = utm_medium,
                         u_utm_campaign = utm_campaign\<rparr>;
                w1 = w\<lparr>users := users w @ [user]\<rparr>;
                w2 = (if truthy utm_source \<or> truthy utm_medium \<or> truthy utm_campaign
                      then w1\<lparr>link_stats := link_stats w1 @
                             [\<lparr>ls_utm_source = utm_source, ls_utm_medium = utm_medium,
                               ls_utm_campaign = utm_campaign, ls_user_id = user_id\<rparr>]\<rparr>
                      else w1)
            in Inr ((user, True), w2))"

text \<open>
  \<open>create_questionnaire\<close>, at the time \<open>now\<close> of \<open>CURRENT_TIMESTAMP\<close>. The id is the next
  value of the sequence; the insert fails on an unknown user and on an id that the
  table already holds. (The rounding of the weight to \<open>DECIMAL(5,2)\<close> is not modelled.)
\<close>

definition create_questionnaire ::
  "world \<Rightarrow> nat \<Rightarrow> int \<Rightarrow> gender option \<Rightarrow> int option \<Rightarrow> pyfloat option \<Rightarrow> int option
     \<Rightarrow> string option \<Rightarrow> string option \<Rightarrow> error + (int \<times> world)" where
  "create_questionnaire w now user_id gender' age' weight' workouts' diet' problem' =
     (let questionnaire_id = questionnaires_id_seq w in
      if user_id \<notin> set (map u_user_id (users w)) then Inl ForeignKeyViolation
      else if questionnaire_id \<in> set (map q_id (questionnaires w)) then Inl UniqueViolation
      else Inr (questionnaire_id,
             w\<lparr>questionnaires := questionnaires w @
                  [\<lparr>q_id = questionnaire_id, q_user_id = user_id, q_gender = gender',
                    q_age = age', q_weight = weight', q_workouts_per_week = workouts',
                    q_diet = diet', q_problem_or_injury = problem', q_created_at = now,
                    q_sent_to_admin = False\<rparr>],
               questionnaires_id_seq := questionnaire_id + 1\<rparr>))"

text \<open>
  \<open>ARRAY_AGG(pc.code)\<close> over the two left joins, for one questionnaire: one element per
  usage row of the questionnaire (\<open>NULL\<close> when its promo code is gone), and the single
  element \<open>NULL\<close> when there is no usage row.
\<close>

definition agg_promo_codes :: "world \<Rightarrow> int \<Rightarrow> string option list" where
  "agg_promo_codes w questionnaire_id =
     (let pcus = filter (\<lambda>pcu. pcu_questionnaire_id pcu = Some questionnaire_id)
                   (promo_code_usage w)
      in if pcus = [] then [None]
         else map (\<lambda>pcu. map_option pc_code
                     (find (\<lambda>pc. pc_id pc = pcu_promo_code_id pcu) (promo_codes w))) pcus)"

definition joined :: "world \<Rightarrow> questionnaire_row \<Rightarrow> details option" where
  "joined w q =
     map_option (\<lambda>u. \<lparr>d_q = q, d_username = u_username u, d_first_name = u_first_name u,
                      d_promo_codes = agg_promo_codes w (q_id q)\<rparr>)
       (find (\<lambda>u. u_user_id u = q_user_id q) (users w))"

definition get_questionnaire_details :: "world \<Rightarrow> int \<Rightarrow> details option" where
  "get_questionnaire_details w questionnaire_id =
     (case find (\<lambda>q. q_id q = questionnaire_id) (questionnaires w) of
        None \<Rightarrow> None
      | Some q \<Rightarrow> joined w q)"

text \<open>\<open>get_new_questionnaires\<close>: the unsent questionnaires, latest first.\<close>

definition get_new_questionnaires :: "world \<Rightarrow> details list" where
  "get_new_questionnaires w =
     rev (sort_key (\<lambda>d. q_created_at (d_q d))
       (List.map_filter (joined w) (filter (\<lambda>q. \<not> q_sent_to_admin q) (questionnaires w))))"

definition mark_questionnaires_sent :: "world \<Rightarrow> int list \<Rightarrow> world" where
  "mark_questionnaires_sent w questionnaire_ids =
     w\<lparr>questionnaires :=
         map (\<lambda>q. if q_id q \<in> set questionnaire_ids then q\<lparr>q_sent_to_admin := True\<rparr> else q)
           (questionnaires w)\<rparr>"

section \<open>Notification of the operators\<close>

definition build_questionnaire_text :: "details \<Rightarrow> text_part list" where
  "build_questionnaire_text d =
     [THeader, TUser (if truthy (d_first_name d) then d_first_name d else None)]
     @ (if truthy (d_username d) then [THandle (the (d_username d))] else [])
     @ [TId (q_user_id (d_q d))]
     @ (case q_gender (d_q d) of None \<Rightarrow> [] | Some g \<Rightarrow> [TGender g])
     @ (case q_age (d_q d) of None \<Rightarrow> [] | Some a \<Rightarrow> if a = 0 then [] else [TAge a])
     @ (case q_weight (d_q d) of None \<Rightarrow> []
        | Some x \<Rightarrow> if x = Finite 0 then [] else [TWeight x])
     @ (case q_workouts_per_week (d_q d) of None \<Rightarrow> []
        | Some n \<Rightarrow> if n = 0 then [] else [TWorkouts n])
     @ (if truthy (q_diet (d_q d)) then [TDiet (the (q_diet (d_q d)))] else [])
     @ (if truthy (q_problem_or_injury (d_q d))
        then [TProblem (the (q_problem_or_injury (d_q d)))] else [])
     @ (case d_promo_codes d of [] \<Rightarrow> []
        | pc0 # _ \<Rightarrow>
            if truthy pc0 then [TPromo (map the (filter truthy (d_promo_codes d)))] else [])
     @ [TDate (q_created_at (d_q d))]"

text \<open>
  The loop of \<open>notify_admins_about_questionnaire\<close>: one \<open>send_message\<close> per operator; a
  send that raises is logged and the loop goes on.
\<close>

fun send_to_admins ::
  "world \<Rightarrow> (int \<Rightarrow> text_part list \<Rightarrow> bool) \<Rightarrow> text_part list \<Rightarrow> int list \<Rightarrow> world" where
  "send_to_admins w sender text [] = w"
| "send_to_admins w sender text (admin_id # rest) =
     send_to_admins
       (w\<lparr>send_calls := send_calls w @ [(admin_id, text)],
          log_records := (if sender admin_id text then log_records w
                          else log_records w @ [SendFailed admin_id])\<rparr>)
       sender text rest"

definition notify_admins_about_questionnaire :: "world \<Rightarrow> details \<Rightarrow> world" where
  "notify_admins_about_questionnaire w questionnaire =
     (if admin_ids w = [] then w
      else case bot_instance w of
             None \<Rightarrow> w\<lparr>log_records := log_records w @ [BotNotSet]\<rparr>
           | Some sender \<Rightarrow>
               send_to_admins w sender (build_questionnaire_text questionnaire) (admin_ids w))"

section \<open>The end of the flow and the daily sweep\<close>

definition state_clear :: "world \<Rightarrow> int \<Rightarrow> world" where
  "state_clear w uid = w\<lparr>fsm := (fsm w)(uid := cleared)\<rparr>"

definition answer :: "world \<Rightarrow> int \<Rightarrow> reply \<Rightarrow> world" where
  "answer w uid r = w\<lparr>answered := answered w @ [(uid, r)]\<rparr>"

text \<open>
  \<open>finish_questionnaire\<close> for the user \<open>uid\<close>. An exception of \<open>create_questionnaire\<close>
  leaves the handler at once.
\<close>

definition finish_questionnaire :: "world \<Rightarrow> nat \<Rightarrow> int \<Rightarrow> error + world" where
  "finish_questionnaire w now uid =
     (let d = data (fsm w uid) in
      case create_questionnaire w now uid (gender d) (age d) (weight d)
             (workouts_per_week d) (diet d) (problem_or_injury d) of
        Inl e \<Rightarrow> Inl e
      | Inr (questionnaire_id, w1) \<Rightarrow>
          let w2 = snd (attach_user_promo_codes_to_questionnaire w1 uid questionnaire_id);
              w4 = (case get_questionnaire_details w2 questionnaire_id of
                      None \<Rightarrow> w2
                    | Some questionnaire \<Rightarrow>
                        mark_questionnaires_sent
                          (notify_admins_about_questionnaire w2 questionnaire)
                          [questionnaire_id])
          in Inr (answer (state_clear w4 uid) uid ThankYou))"

text \<open>The loop of \<open>send_daily_questionnaires\<close>, collecting the ids.\<close>

fun notify_each :: "world \<Rightarrow> details list \<Rightarrow> int list \<Rightarrow> int list \<times> world" where
  "notify_each w [] questionnaire_ids = (questionnaire_ids, w)"
| "notify_each w (questionnaire # rest) questionnaire_ids =
     notify_each (notify_admins_about_questionnaire w questionnaire) rest
       (questionnaire_ids @ [q_id (d_q questionnaire)])"

definition send_daily_questionnaires :: "world \<Rightarrow> world" where
  "send_daily_questionnaires w =
     (let questionnaires' = get_new_questionnaires w in
      if questionnaires' = [] then w
      else
        (case notify_each w questionnaires' [] of
           (questionnaire_ids, w1) \<Rightarrow>
             if questionnaire_ids = [] then w1
             else mark_questionnaires_sent w1 questionnaire_ids))"

section \<open>The validating steps of the flow\<close>

text \<open>
  The handlers of \<open>waiting_age\<close>, \<open>waiting_weight\<close> and \<open>waiting_workouts\<close>, for a
  message that has a text. Python's built-in \<open>int\<close> and \<open>float\<close> are parameters:
  \<open>None\<close> is their \<open>ValueError\<close>.
\<close>

definition update_data :: "world \<Rightarrow> int \<Rightarrow> (answers \<Rightarrow> answers) \<Rightarrow> world" where
  "update_data w uid f = w\<lparr>fsm := (fsm w)(uid := (fsm w uid)\<lparr>data := f (data (fsm w uid))\<rparr>)\<rparr>"

definition set_state :: "world \<Rightarrow> int \<Rightarrow> fsm_state \<Rightarrow> world" where
  "set_state w uid s = w\<lparr>fsm := (fsm w)(uid := (fsm w uid)\<lparr>state := Some s\<rparr>)\<rparr>"

definition process_age :: "(string \<Rightarrow> int option) \<Rightarrow> world \<Rightarrow> int \<Rightarrow> string \<Rightarrow> world" where
  "process_age py_int w uid text =
     (case py_int text of
        None \<Rightarrow> answer w uid EnterNumber
      | Some age' \<Rightarrow>
          if age' < 1 \<or> age' > 150 then answer w uid AgeOutOfRange
          else answer (set_state (update_data w uid (\<lambda>d. d\<lparr>age := Some age'\<rparr>)) uid
                         waiting_weight) uid AskWeight)"

definition replace_comma :: "string \<Rightarrow> string" where
  "replace_comma text = map (\<lambda>c. if c = CHR '','' then CHR ''.'' else c) text"

definition process_weight ::
  "(string \<Rightarrow> pyfloat option) \<Rightarrow> world \<Rightarrow> int \<Rightarrow> string \<Rightarrow> world" where
  "process_weight py_float w uid text =
     (case py_float (replace_comma text) of
        None \<Rightarrow> answer w uid EnterDecimal
      | Some weight' \<Rightarrow>
          if float_lt_int weight' 1 \<or> float_gt_int weight' 500
          then answer w uid WeightOutOfRange
          else answer (set_state (update_data w uid (\<lambda>d. d\<lparr>weight := Some weight'\<rparr>)) uid
                         waiting_workouts) uid AskWorkouts)"

definition process_workouts ::
  "(string \<Rightarrow> int option) \<Rightarrow> world \<Rightarrow> int \<Rightarrow> string \<Rightarrow> world" where
  "process_workouts py_int w uid text =
     (case py_int text of
        None \<Rightarrow> answer w uid EnterNumber
      | Some workouts \<Rightarrow>
          if workouts < 1 \<or> workouts > 7 then answer w uid WorkoutsOutOfRange
          else answer (set_state (update_data w uid (\<lambda>d. d\<lparr>workouts_per_week := Some workouts\<rparr>))
                         uid waiting_diet) uid AskDiet)"

section \<open>The single-use invariant and the reachable states\<close>

text \<open>
  A single-use promo code has at most one usage row that carries a questionnaire.
\<close>

definition single_use_ok :: "world \<Rightarrow> bool" where
  "single_use_ok w =
     list_all (\<lambda>pc. pc_is_single_use pc \<longrightarrow> length (attached_rows w (pc_id pc)) \<le> 1)
       (promo_codes w)"

text \<open>
  The states that runs of \<open>process_promo_code\<close> and of
  \<open>attach_user_promo_codes_to_questionnaire\<close>, in any order and with any arguments, reach
  from \<open>w0\<close>. A run of \<open>process_promo_code\<close> that raises changes nothing.
\<close>

inductive reachable :: "world \<Rightarrow> world \<Rightarrow> bool" for w0 :: world where
  start: "reachable w0 w0"
| redeem: "reachable w0 w \<Longrightarrow> process_promo_code w uid text = Inr w' \<Longrightarrow> reachable w0 w'"
| attach: "reachable w0 w \<Longrightarrow> attach_user_promo_codes_to_questionnaire w uid qid = (n, w')
             \<Longrightarrow> reachable w0 w'"

text \<open>The flags that the attachment has fetched agree with the table of promo codes.\<close>

definition flags_ok :: "world \<Rightarrow> (int \<times> bool) list \<Rightarrow> bool" where
  "flags_ok w ps =
     (\<forall>(p, su) \<in> set ps. \<forall>pc \<in> set (promo_codes w). pc_id pc = p \<longrightarrow> pc_is_single_use pc = su)"

section \<open>A small gym\<close>

text \<open>
  Two users, two questionnaires that no operator has seen, the single-use code
  \<open>VIP1\<close> and the reusable code \<open>SUMMER\<close>, one operator, and a bot whose sends succeed.
\<close>

definition anna :: user_row where
  "anna = \<lparr>u_user_id = 7, u_username = Some ''anna'', u_first_name = Some ''Anna'',
            u_utm_source = None, u_utm_medium = None, u_utm_campaign = None\<rparr>"

definition boris :: user_row where
  "boris = \<lparr>u_user_id = 8, u_username = None, u_first_name = Some ''Boris'',
             u_utm_source = Some ''ad'', u_utm_medium = None, u_utm_campaign = None\<rparr>"

definition form :: "int \<Rightarrow> int \<Rightarrow> nat \<Rightarrow> questionnaire_row" where
  "form i u t = \<lparr>q_id = i, q_user_id = u, q_gender = Some Muzhskoy, q_age = Some 29,
     q_weight = Some (Finite 82), q_workouts_per_week = Some 4, q_diet = None,
     q_problem_or_injury = None, q_created_at = t, q_sent_to_admin = False\<rparr>"

definition vip1 :: promo_row where
  "vip1 = \<lparr>pc_id = 1, pc_code = ''VIP1'', pc_description = Some ''one free session'',
            pc_is_single_use = True\<rparr>"

definition summer :: promo_row where
  "summer = \<lparr>pc_id = 2, pc_code = ''SUMMER'', pc_description = Some ''summer discount'',
              pc_is_single_use = False\<rparr>"

definition usage :: "int \<Rightarrow> int \<Rightarrow> int option \<Rightarrow> usage_row" where
  "usage u p q = \<lparr>pcu_user_id = u, pcu_promo_code_id = p, pcu_questionnaire_id = q\<rparr>"

definition gym :: world where
  "gym = \<lparr>users = [anna, boris], link_stats = [],
     questionnaires = [form 10 7 5, form 11 8 6], questionnaires_id_seq = 12,
     promo_codes = [vip1, summer], promo_code_usage = [],
     fsm = (\<lambda>_. cleared), admin_ids = [100], bot_instance = Some (\<lambda>_ _. True),
     send_calls = [], answered = [], log_records = []\<rparr>"

definition gym_pending_vip1 :: world where
  "gym_pending_vip1 = gym\<lparr>promo_code_usage := [usage 7 1 None]\<rparr>"

definition gym_pending_summer :: world where
  "gym_pending_summer = gym\<lparr>promo_code_usage := [usage 7 2 None]\<rparr>"


text \<open>The gym with no operator configured.\<close>

definition gym_unattended :: world where
  "gym_unattended = gym\<lparr>admin_ids := []\<rparr>"

text \<open>
  A few values of Python's \<open>float\<close> and \<open>int\<close>, to run the validating steps on examples.
\<close>

definition float_sample :: "string \<Rightarrow> pyfloat option" where
  "float_sample s =
     (if s = ''nan'' then Some NaN
      else if s = ''75.5'' then Some (Finite 75.5)
      else if s = ''500.1'' then Some (Finite 500.1)
      else None)"

definition int_sample :: "string \<Rightarrow> int option" where
  "int_sample s =
     (if s = ''0'' then Some 0 else if s = ''1'' then Some 1 else if s = ''7'' then Some 7
      else if s = ''8'' then Some 8 else if s = ''150'' then Some 150
      else if s = ''151'' then Some 151 else None)"

section \<open>Facts about the attachment\<close>

lemmas gym_defs = gym_def anna_def boris_def form_def vip1_def summer_def usage_def

lemma insert_usage_Inr:
  "insert_promo_code_usage w uid p q = Inr w1 \<Longrightarrow>
     w1 = w\<lparr>promo_code_usage := promo_code_usage w @
            [\<lparr>pcu_user_id = uid, pcu_promo_code_id = p, pcu_questionnaire_id = q\<rparr>]\<rparr>"
  by (simp add: insert_promo_code_usage_def split: if_splits)

lemma attached_rows_append:
  "attached_rows (w\<lparr>promo_code_usage := promo_code_usage w @ [r]\<rparr>) p =
     attached_rows w p @
       (if pcu_promo_code_id r = p \<and> pcu_questionnaire_id r \<noteq> None then [r] else [])"
  by (simp add: attached_rows_def)

text \<open>
  The attachment only appends usage rows, all of them for the given user and
  questionnaire, and counts them; nothing else of the world changes.
\<close>

lemma attach_loop_frame:
  "attach_loop w uid qid ps n = (m, w') \<Longrightarrow>
     \<exists>new. w' = w\<lparr>promo_code_usage := promo_code_usage w @ new\<rparr>
          \<and> m = n + length new
          \<and> list_all (\<lambda>r. pcu_user_id r = uid \<and> pcu_questionnaire_id r = Some qid
                          \<and> pcu_promo_code_id r \<in> fst ` set ps) new"
proof (induction w uid qid ps n rule: attach_loop.induct)
  case (1 w uid qid attached_count)
  then show ?case by (intro exI[of _ "[]"]) simp
next
  case (2 w uid qid promo_id is_single_use rest attached_count)
  show ?case
  proof (cases "is_single_use \<and> attached_rows w promo_id \<noteq> []")
    case True
    with 2 obtain new where "w' = w\<lparr>promo_code_usage := promo_code_usage w @ new\<rparr>"
      "m = attached_count + length new"
      "list_all (\<lambda>r. pcu_user_id r = uid \<and> pcu_questionnaire_id r = Some qid
                          \<and> pcu_promo_code_id r \<in> fst ` set rest) new"
      by auto
    then show ?thesis by (intro exI[of _ new]) (auto simp: list_all_iff)
  next
    case False
    show ?thesis
    proof (cases "insert_promo_code_usage w uid promo_id (Some qid)")
      case (Inl e)
      with 2 False obtain new where "w' = w\<lparr>promo_code_usage := promo_code_usage w @ new\<rparr>"
        "m = attached_count + length new"
        "list_all (\<lambda>r. pcu_user_id r = uid \<and> pcu_questionnaire_id r = Some qid
                          \<and> pcu_promo_code_id r \<in> fst ` set rest) new"
        by auto
      then show ?thesis by (intro exI[of _ new]) (auto simp: list_all_iff)
    next
      case (Inr w1)
      note w1 = insert_usage_Inr[OF Inr]
      from 2 False Inr obtain new where
        new: "w' = w1\<lparr>promo_code_usage := promo_code_usage w1 @ new\<rparr>"
        "m = attached_count + 1 + length new"
        "list_all (\<lambda>r. pcu_user_id r = uid \<and> pcu_questionnaire_id r = Some qid
                          \<and> pcu_promo_code_id r \<in> fst ` set rest) new"
        by auto
      show ?thesis
        by (intro exI[of _ "\<lparr>pcu_user_id = uid, pcu_promo_code_id = promo_id,
                              pcu_questionnaire_id = Some qid\<rparr> # new"])
           (use new in \<open>auto simp: w1 list_all_iff\<close>)
    qed
  qed
qed

lemma attach_frame:
  "attach_user_promo_codes_to_questionnaire w uid qid = (m, w') \<Longrightarrow>
     \<exists>new. w' = w\<lparr>promo_code_usage := promo_code_usage w @ new\<rparr>
          \<and> m = length new
          \<and> list_all (\<lambda>r. pcu_user_id r = uid \<and> pcu_questionnaire_id r = Some qid) new"
  unfolding attach_user_promo_codes_to_questionnaire_def
  by (drule attach_loop_frame) (auto simp: list_all_iff)

lemma attach_loop_insert_fails:
  "uid \<notin> set (map u_user_id (users w)) \<or> qid \<notin> set (map q_id (questionnaires w)) \<Longrightarrow>
     attach_loop w uid qid ps n = (n, w)"
  by (induction w uid qid ps n rule: attach_loop.induct)
     (auto simp: insert_promo_code_usage_def)

lemma attach_loop_single_use_ok:
  "single_use_ok w \<Longrightarrow> flags_ok w ps \<Longrightarrow> attach_loop w uid qid ps n = (m, w')
     \<Longrightarrow> single_use_ok w'"
proof (induction w uid qid ps n rule: attach_loop.induct)
  case (1 w uid qid attached_count)
  then show ?case by simp
next
  case (2 w uid qid promo_id is_single_use rest attached_count)
  have rest_ok: "flags_ok w rest" using "2.prems"(2) by (simp add: flags_ok_def)
  show ?case
  proof (cases "is_single_use \<and> attached_rows w promo_id \<noteq> []")
    case True
    then show ?thesis using 2 rest_ok by simp
  next
    case False
    show ?thesis
    proof (cases "insert_promo_code_usage w uid promo_id (Some qid)")
      case (Inl e)
      then show ?thesis using 2 rest_ok False by simp
    next
      case (Inr w1)
      note w1 = insert_usage_Inr[OF Inr]
      have pcs: "promo_codes w1 = promo_codes w" by (simp add: w1)
      have ok1: "single_use_ok w1"
        unfolding single_use_ok_def list_all_iff pcs
      proof (intro ballI impI)
        fix pc assume pc: "pc \<in> set (promo_codes w)" and su: "pc_is_single_use pc"
        have old: "length (attached_rows w (pc_id pc)) \<le> 1"
          using "2.prems"(1) pc su by (simp add: single_use_ok_def list_all_iff)
        show "length (attached_rows w1 (pc_id pc)) \<le> 1"
        proof (cases "pc_id pc = promo_id")
          case True
          then have "is_single_use" using "2.prems"(2) pc su by (auto simp: flags_ok_def)
          with False have "attached_rows w promo_id = []" by simp
          then show ?thesis using True by (simp add: w1 attached_rows_append)
        next
          case False
          then show ?thesis using old by (simp add: w1 attached_rows_append)
        qed
      qed
      have fl1: "flags_ok w1 rest" using rest_ok by (simp add: flags_ok_def pcs)
      show ?thesis using "2.IH"(3)[OF False Inr ok1 fl1] "2.prems"(3) False Inr by simp
    qed
  qed
qed

lemma pending_usages_flags_ok:
  "distinct (map pc_id (promo_codes w)) \<Longrightarrow> flags_ok w (pending_usages w uid)"
  by (auto simp: flags_ok_def pending_usages_def distinct_map inj_on_def)

lemma attach_single_use_ok:
  "distinct (map pc_id (promo_codes w)) \<Longrightarrow> single_use_ok w \<Longrightarrow>
     attach_user_promo_codes_to_questionnaire w uid qid = (m, w') \<Longrightarrow> single_use_ok w'"
  unfolding attach_user_promo_codes_to_questionnaire_def
  by (rule attach_loop_single_use_ok[OF _ pending_usages_flags_ok])

lemma attach_promo_codes:
  "attach_user_promo_codes_to_questionnaire w uid qid = (m, w') \<Longrightarrow>
     promo_codes w' = promo_codes w"
  by (drule attach_frame) auto

text \<open>What \<open>process_promo_code\<close> does to the table of usages: nothing, or one pending row.\<close>

lemma process_promo_code_usage:
  "process_promo_code w uid text = Inr w' \<Longrightarrow>
     promo_codes w' = promo_codes w \<and>
     (promo_code_usage w' = promo_code_usage w \<or>
      (\<exists>p. promo_code_usage w' = promo_code_usage w @
         [\<lparr>pcu_user_id = uid, pcu_promo_code_id = p, pcu_questionnaire_id = None\<rparr>]))"
  by (auto simp: process_promo_code_def Let_def insert_promo_code_usage_def
           split: option.splits if_splits)

lemma process_promo_code_single_use_ok:
  assumes "single_use_ok w" and "process_promo_code w uid text = Inr w'"
  shows "single_use_ok w'"
proof -
  from process_promo_code_usage[OF assms(2)]
  have pcs: "promo_codes w' = promo_codes w"
    and att: "\<And>p. attached_rows w' p = attached_rows w p"
    by (auto simp: attached_rows_def)
  show ?thesis using assms(1) by (simp add: single_use_ok_def pcs att)
qed

lemma reachable_invariant:
  "reachable w0 w \<Longrightarrow> distinct (map pc_id (promo_codes w0)) \<Longrightarrow> single_use_ok w0 \<Longrightarrow>
     promo_codes w = promo_codes w0 \<and> single_use_ok w"
proof (induction rule: reachable.induct)
  case start
  then show ?case by simp
next
  case (redeem w uid t w')
  then show ?case
    using process_promo_code_usage[of w uid t w'] process_promo_code_single_use_ok[of w uid t w']
    by simp
next
  case (attach w uid qid n w')
  then show ?case
    using attach_promo_codes[of w uid qid n w'] attach_single_use_ok[of w uid qid n w']
    by simp
qed



lemma pending_usages_ids:
  "fst ` set (pending_usages w uid) \<subseteq> set (map pc_id (promo_codes w))"
  by (force simp: pending_usages_def image_iff)


section \<open>The claims about promo codes\<close>

text \<open>
  C1. Start from a world whose promo codes have distinct ids and in which every
  single-use code has at most one usage row with a questionnaire (a fresh database
  is one). After any sequence of runs of \<open>process_promo_code\<close> and of
  \<open>attach_user_promo_codes_to_questionnaire\<close>, by any users and for any
  questionnaires, every single-use code still has at most one usage row with a
  questionnaire, over all users.
\<close>

theorem single_use_attached_at_most_once:
  assumes "distinct (map pc_id (promo_codes w0))"
    and "single_use_ok w0"
    and "reachable w0 w"
    and "pc \<in> set (promo_codes w)"
    and "pc_is_single_use pc"
  shows "length (attached_rows w (pc_id pc)) \<le> 1"
proof -
  from reachable_invariant[OF assms(3,1,2)] have "single_use_ok w" by simp
  with assms(4,5) show ?thesis by (simp add: single_use_ok_def list_all_iff)
qed

lemma gym_redeem_vip1:
  "process_promo_code gym 7 ''vip1'' =
     Inr (gym\<lparr>promo_code_usage := [usage 7 1 None],
              answered := [(7, PromoApplied ''VIP1'' (Some ''one free session''))],
              fsm := (fsm gym)(7 := cleared)\<rparr>)"
  by (simp add: process_promo_code_def check_promo_code_def strip_def is_space_def upper_def
        upper_char_def used_at_all_def pending_of_user_def insert_promo_code_usage_def gym_defs)

lemma gym_attach_vip1:
  "attach_user_promo_codes_to_questionnaire
     (gym\<lparr>promo_code_usage := [usage 7 1 None],
          answered := [(7, PromoApplied ''VIP1'' (Some ''one free session''))],
          fsm := (fsm gym)(7 := cleared)\<rparr>) 7 10 =
     (1, gym\<lparr>promo_code_usage := [usage 7 1 None, usage 7 1 (Some 10)],
             answered := [(7, PromoApplied ''VIP1'' (Some ''one free session''))],
             fsm := (fsm gym)(7 := cleared)\<rparr>)"
  by (simp add: attach_user_promo_codes_to_questionnaire_def pending_usages_def
        attached_rows_def insert_promo_code_usage_def gym_defs)

theorem single_use_attached_at_most_once_witness:
  "distinct (map pc_id (promo_codes gym)) \<and> single_use_ok gym \<and> vip1 \<in> set (promo_codes gym)
   \<and> pc_is_single_use vip1
   \<and> reachable gym (gym\<lparr>promo_code_usage := [usage 7 1 None, usage 7 1 (Some 10)],
             answered := [(7, PromoApplied ''VIP1'' (Some ''one free session''))],
             fsm := (fsm gym)(7 := cleared)\<rparr>)
   \<and> length (attached_rows (gym\<lparr>promo_code_usage := [usage 7 1 None, usage 7 1 (Some 10)],
             answered := [(7, PromoApplied ''VIP1'' (Some ''one free session''))],
             fsm := (fsm gym)(7 := cleared)\<rparr>) (pc_id vip1)) \<le> 1"
proof -
  have d: "distinct (map pc_id (promo_codes gym))" by (simp add: gym_defs)
  have ok: "single_use_ok gym" by (simp add: single_use_ok_def attached_rows_def gym_defs)
  have r: "reachable gym (gym\<lparr>promo_code_usage := [usage 7 1 None, usage 7 1 (Some 10)],
             answered := [(7, PromoApplied ''VIP1'' (Some ''one free session''))],
             fsm := (fsm gym)(7 := cleared)\<rparr>)"
    by (rule reachable.attach[OF reachable.redeem[OF reachable.start gym_redeem_vip1]
          gym_attach_vip1])
  have m: "vip1 \<in> set (promo_codes (gym\<lparr>promo_code_usage := [usage 7 1 None, usage 7 1 (Some 10)],
             answered := [(7, PromoApplied ''VIP1'' (Some ''one free session''))],
             fsm := (fsm gym)(7 := cleared)\<rparr>))" by (simp add: gym_def)
  have s: "pc_is_single_use vip1" by (simp add: vip1_def)
  from single_use_attached_at_most_once[OF d ok r m s] d ok r s show ?thesis
    by (simp add: gym_def)
qed

lemma attach_loop_count:
  "attach_loop w uid qid ps n = (m, w') \<Longrightarrow> m \<le> n + length ps"
  by (induction w uid qid ps n arbitrary: m w' rule: attach_loop.induct)
     (fastforce split: if_splits sum.splits)+

text \<open>
  C2 (as the code has it). For a single-use code, \<open>process_promo_code\<close> answers "already
  used" exactly when the code has any usage row at all, pending or attached, of any
  user; then it inserts nothing. With no usage row and a known user it inserts one
  pending row and answers with the description. For a code that is not single-use, a
  user who already holds a pending usage of it gets the same answer with the
  description and the table of usages stays as it is.
\<close>

theorem process_promo_code_outcome:
  assumes "check_promo_code w (strip text) = Some promo"
  shows "(pc_is_single_use promo \<longrightarrow>
            ((\<exists>w'. process_promo_code w uid text = Inr w'
                  \<and> answered w' = answered w @ [(uid, PromoAlreadyUsed)]
                  \<and> promo_code_usage w' = promo_code_usage w)
             \<longleftrightarrow> used_at_all w (pc_id promo)))
       \<and> (pc_is_single_use promo \<and> \<not> used_at_all w (pc_id promo)
            \<and> uid \<in> set (map u_user_id (users w)) \<longrightarrow>
            (\<exists>w'. process_promo_code w uid text = Inr w'
                  \<and> answered w' = answered w @
                       [(uid, PromoApplied (upper (strip text)) (pc_description promo))]
                  \<and> promo_code_usage w' = promo_code_usage w @ [usage uid (pc_id promo) None]))
       \<and> (\<not> pc_is_single_use promo \<and> pending_of_user w uid (pc_id promo) \<longrightarrow>
            (\<exists>w'. process_promo_code w uid text = Inr w'
                  \<and> answered w' = answered w @
                       [(uid, PromoApplied (upper (strip text)) (pc_description promo))]
                  \<and> promo_code_usage w' = promo_code_usage w))"
proof -
  have known: "pc_id promo \<in> set (map pc_id (promo_codes w))"
    using assms by (auto simp: check_promo_code_def find_Some_iff)
  have pend: "pending_of_user w uid (pc_id promo) \<Longrightarrow> used_at_all w (pc_id promo)"
    by (auto simp: pending_of_user_def used_at_all_def filter_empty_conv)
  show ?thesis
  proof (intro conjI impI)
    assume su: "pc_is_single_use promo"
    show "(\<exists>w'. process_promo_code w uid text = Inr w'
                  \<and> answered w' = answered w @ [(uid, PromoAlreadyUsed)]
                  \<and> promo_code_usage w' = promo_code_usage w)
             \<longleftrightarrow> used_at_all w (pc_id promo)"
      using assms su pend
      by (auto simp: process_promo_code_def insert_promo_code_usage_def split: if_splits)
  next
    assume "pc_is_single_use promo \<and> \<not> used_at_all w (pc_id promo)
            \<and> uid \<in> set (map u_user_id (users w))"
    then show "\<exists>w'. process_promo_code w uid text = Inr w'
                  \<and> answered w' = answered w @
                       [(uid, PromoApplied (upper (strip text)) (pc_description promo))]
                  \<and> promo_code_usage w' = promo_code_usage w @ [usage uid (pc_id promo) None]"
      using assms known pend
      by (auto simp: process_promo_code_def insert_promo_code_usage_def usage_def)
  next
    assume "\<not> pc_is_single_use promo \<and> pending_of_user w uid (pc_id promo)"
    then show "\<exists>w'. process_promo_code w uid text = Inr w'
                  \<and> answered w' = answered w @
                       [(uid, PromoApplied (upper (strip text)) (pc_description promo))]
                  \<and> promo_code_usage w' = promo_code_usage w"
      using assms by (auto simp: process_promo_code_def)
  qed
qed

lemma gym_check_vip1: "check_promo_code gym_pending_vip1 (strip ''vip1'') = Some vip1"
  by (simp add: check_promo_code_def strip_def is_space_def upper_def upper_char_def
        gym_pending_vip1_def gym_defs)

theorem process_promo_code_outcome_witness:
  "check_promo_code gym_pending_vip1 (strip ''vip1'') = Some vip1
   \<and> pc_is_single_use vip1 \<and> used_at_all gym_pending_vip1 (pc_id vip1)
   \<and> (\<exists>w'. process_promo_code gym_pending_vip1 7 ''vip1'' = Inr w'
          \<and> answered w' = answered gym_pending_vip1 @ [(7, PromoAlreadyUsed)]
          \<and> promo_code_usage w' = promo_code_usage gym_pending_vip1)"
proof -
  have su: "pc_is_single_use vip1" by (simp add: vip1_def)
  have used: "used_at_all gym_pending_vip1 (pc_id vip1)"
    by (simp add: used_at_all_def gym_pending_vip1_def gym_defs)
  from process_promo_code_outcome[OF gym_check_vip1, of 7] su used gym_check_vip1
  show ?thesis by blast
qed

text \<open>
  The claim C2 as the specification states it fails: Anna holds only a pending usage of
  the single-use code \<open>VIP1\<close>, no usage of it carries a questionnaire, and her second
  entry of the code is answered "already used".
\<close>

theorem second_entry_of_single_use_code_rejected:
  "attached_rows gym_pending_vip1 (pc_id vip1) = []
   \<and> pending_of_user gym_pending_vip1 7 (pc_id vip1)
   \<and> process_promo_code gym_pending_vip1 7 ''vip1'' =
       Inr (gym_pending_vip1\<lparr>answered := [(7, PromoAlreadyUsed)],
                             fsm := (fsm gym_pending_vip1)(7 := cleared)\<rparr>)"
  by (simp add: process_promo_code_def check_promo_code_def strip_def is_space_def upper_def
        upper_char_def used_at_all_def pending_of_user_def attached_rows_def
        gym_pending_vip1_def gym_defs)

text \<open>
  C3, at its failing input. Anna holds a pending usage of the reusable code
  \<open>SUMMER\<close>. The first attachment to questionnaire 10 inserts one row and returns 1;
  the second attachment to the same questionnaire inserts the same row once more and
  returns 1 again, because no unique constraint makes \<open>ON CONFLICT DO NOTHING\<close> skip it.
\<close>

theorem attach_twice_duplicates:
  "attach_user_promo_codes_to_questionnaire gym_pending_summer 7 10 =
     (1, gym_pending_summer\<lparr>promo_code_usage := [usage 7 2 None, usage 7 2 (Some 10)]\<rparr>)
   \<and> attach_user_promo_codes_to_questionnaire
       (gym_pending_summer\<lparr>promo_code_usage := [usage 7 2 None, usage 7 2 (Some 10)]\<rparr>) 7 10 =
     (1, gym_pending_summer\<lparr>promo_code_usage :=
           [usage 7 2 None, usage 7 2 (Some 10), usage 7 2 (Some 10)]\<rparr>)"
  by (simp add: attach_user_promo_codes_to_questionnaire_def pending_usages_def
        attached_rows_def insert_promo_code_usage_def gym_pending_summer_def gym_defs)

text \<open>
  C5 (as the code has it). The attachment always returns: it writes no log record;
  for a user without pending usages it returns 0 and changes nothing; and when the
  inserts fail (the user or the questionnaire is unknown) every failure is swallowed,
  the count is 0 and the world is as before.
\<close>

theorem attach_never_raises:
  "log_records (snd (attach_user_promo_codes_to_questionnaire w uid qid)) = log_records w
   \<and> fst (attach_user_promo_codes_to_questionnaire w uid qid) \<le> length (pending_usages w uid)
   \<and> (pending_usages w uid = [] \<longrightarrow>
        attach_user_promo_codes_to_questionnaire w uid qid = (0, w))
   \<and> (insert_promo_code_usage w uid promo_id (Some qid) = Inl ForeignKeyViolation
        \<and> promo_id \<in> set (map pc_id (promo_codes w)) \<longrightarrow>
        attach_user_promo_codes_to_questionnaire w uid qid = (0, w))"
proof -
  obtain m w' where res: "attach_user_promo_codes_to_questionnaire w uid qid = (m, w')"
    by (cases "attach_user_promo_codes_to_questionnaire w uid qid")
  from attach_frame[OF res] have lg: "log_records w' = log_records w" by auto
  have "attach_loop w uid qid (pending_usages w uid) 0 = (m, w')"
    using res by (simp add: attach_user_promo_codes_to_questionnaire_def)
  from attach_loop_frame[OF this] obtain new where
    new: "m = length new" "list_all (\<lambda>r. pcu_user_id r = uid \<and> pcu_questionnaire_id r = Some qid
            \<and> pcu_promo_code_id r \<in> fst ` set (pending_usages w uid)) new"
    "w' = w\<lparr>promo_code_usage := promo_code_usage w @ new\<rparr>" by auto
  have le: "m \<le> length (pending_usages w uid)"
    using attach_loop_count[of w uid qid "pending_usages w uid" 0 m w'] res
    by (simp add: attach_user_promo_codes_to_questionnaire_def)
  have fails: "insert_promo_code_usage w uid promo_id (Some qid) = Inl ForeignKeyViolation
        \<and> promo_id \<in> set (map pc_id (promo_codes w)) \<longrightarrow>
        attach_user_promo_codes_to_questionnaire w uid qid = (0, w)"
    using attach_loop_insert_fails[of uid w qid "pending_usages w uid" 0]
    by (auto simp: attach_user_promo_codes_to_questionnaire_def insert_promo_code_usage_def
             split: if_splits)
  show ?thesis using lg le fails res
    by (auto simp: attach_user_promo_codes_to_questionnaire_def)
qed

theorem attach_never_raises_witness:
  "pending_usages gym 7 = [] \<and> attach_user_promo_codes_to_questionnaire gym 7 10 = (0, gym)
   \<and> log_records (snd (attach_user_promo_codes_to_questionnaire gym 7 10)) = log_records gym"
proof -
  have p: "pending_usages gym 7 = []" by (simp add: pending_usages_def gym_defs)
  from attach_never_raises[of gym 7 10 1] p show ?thesis by simp
qed

text \<open>
  The claim C5 as the specification states it fails in one word: a failed insert is
  swallowed but not logged. Anna's pending code cannot be attached to the unknown
  questionnaire 99; the call returns 0, the world is as before and the log is empty.
\<close>

theorem failed_insert_not_logged:
  "insert_promo_code_usage gym_pending_summer 7 2 (Some 99) = Inl ForeignKeyViolation
   \<and> attach_user_promo_codes_to_questionnaire gym_pending_summer 7 99 = (0, gym_pending_summer)
   \<and> log_records (snd (attach_user_promo_codes_to_questionnaire gym_pending_summer 7 99)) = []"
  by (simp add: attach_user_promo_codes_to_questionnaire_def pending_usages_def
        attached_rows_def insert_promo_code_usage_def gym_pending_summer_def gym_defs)






section \<open>The claim about users\<close>

text \<open>
  C8. For a user id that the table of users already holds, \<open>get_or_create_user\<close>
  returns the stored row with \<open>created = False\<close>, whatever names and attribution tags
  are passed in, and the world is as before: no row of \<open>users\<close> (so none of its
  \<open>utm\<close> fields) and no row of \<open>link_stats\<close> changes.
\<close>

theorem get_or_create_user_existing:
  assumes "user_id \<in> set (map u_user_id (users w))"
  shows "\<exists>user. get_or_create_user w user_id username first_name utm_source utm_medium
                   utm_campaign = Inr ((user, False), w)
              \<and> user \<in> set (users w) \<and> u_user_id user = user_id"
proof -
  from assms obtain user where f: "find (\<lambda>u. u_user_id u = user_id) (users w) = Some user"
    by (cases "find (\<lambda>u. u_user_id u = user_id) (users w)") (auto simp: find_None_iff)
  then have "user \<in> set (users w) \<and> u_user_id user = user_id"
    by (auto simp: find_Some_iff)
  with f show ?thesis by (auto simp: get_or_create_user_def)
qed

theorem get_or_create_user_existing_witness:
  "8 \<in> set (map u_user_id (users gym))
   \<and> get_or_create_user gym 8 (Some ''bob'') (Some ''Bob'') (Some ''mail'') (Some ''cpc'')
       (Some ''spring'') = Inr ((boris, False), gym)
   \<and> u_utm_source boris = Some ''ad''"
proof -
  have m: "8 \<in> set (map u_user_id (users gym))" by (simp add: gym_defs)
  from get_or_create_user_existing[OF m, of "Some ''bob''" "Some ''Bob''" "Some ''mail''"
      "Some ''cpc''" "Some ''spring''"]
  obtain user where "get_or_create_user gym 8 (Some ''bob'') (Some ''Bob'') (Some ''mail'')
      (Some ''cpc'') (Some ''spring'') = Inr ((user, False), gym)"
    and "user \<in> set (users gym)" and "u_user_id user = 8" by blast
  moreover from this have "user = boris" by (auto simp: gym_defs)
  ultimately show ?thesis using m by (simp add: boris_def)
qed

section \<open>The claims about the validating steps\<close>

text \<open>The three steps, whatever \<open>int\<close> and \<open>float\<close> make of the text.\<close>

lemma process_age_accepts:
  "process_age py_int w uid text =
     (if \<exists>n. py_int text = Some n \<and> 1 \<le> n \<and> n \<le> 150
      then answer (set_state (update_data w uid (\<lambda>d. d\<lparr>age := py_int text\<rparr>)) uid
             waiting_weight) uid AskWeight
      else answer w uid (if py_int text = None then EnterNumber else AgeOutOfRange))"
  by (auto simp: process_age_def split: option.splits)

lemma process_workouts_accepts:
  "process_workouts py_int w uid text =
     (if \<exists>n. py_int text = Some n \<and> 1 \<le> n \<and> n \<le> 7
      then answer (set_state (update_data w uid (\<lambda>d. d\<lparr>workouts_per_week := py_int text\<rparr>))
             uid waiting_diet) uid AskDiet
      else answer w uid (if py_int text = None then EnterNumber else WorkoutsOutOfRange))"
  by (auto simp: process_workouts_def split: option.splits)

lemma process_weight_finite:
  "py_float (replace_comma text) = Some (Finite x) \<Longrightarrow>
   process_weight py_float w uid text =
     (if 1 \<le> x \<and> x \<le> 500
      then answer (set_state (update_data w uid (\<lambda>d. d\<lparr>weight := Some (Finite x)\<rparr>)) uid
             waiting_workouts) uid AskWorkouts
      else answer w uid WeightOutOfRange)"
  by (auto simp: process_weight_def)

lemma process_weight_comma:
  "replace_comma ''75,5'' = ''75.5'' \<and>
   process_weight py_float w uid ''75,5'' = process_weight py_float w uid ''75.5''"
  by (simp add: process_weight_def replace_comma_def)

lemma rejected_keeps_session:
  "fsm (answer w uid r) = fsm w"
  by (simp add: answer_def)

text \<open>
  C6, at its failing input. Python's \<open>float\<close> reads the text \<open>nan\<close> as a NaN, which is
  neither below 1 nor above 500: the weight step stores it and moves on to the
  workouts question.
\<close>

theorem process_weight_nan_accepted:
  assumes "py_float ''nan'' = Some NaN"
  shows "process_weight py_float w uid ''nan'' =
           answer (set_state (update_data w uid (\<lambda>d. d\<lparr>weight := Some NaN\<rparr>)) uid
             waiting_workouts) uid AskWorkouts
       \<and> weight (data (fsm (process_weight py_float w uid ''nan'') uid)) = Some NaN
       \<and> state (fsm (process_weight py_float w uid ''nan'') uid) = Some waiting_workouts"
  using assms
  by (simp add: process_weight_def replace_comma_def answer_def set_state_def update_data_def)

theorem process_weight_nan_accepted_witness:
  "float_sample ''nan'' = Some NaN
   \<and> weight (data (fsm (process_weight float_sample gym 7 ''nan'') 7)) = Some NaN
   \<and> state (fsm (process_weight float_sample gym 7 ''nan'') 7) = Some waiting_workouts"
proof -
  have h: "float_sample ''nan'' = Some NaN" by (simp add: float_sample_def)
  from process_weight_nan_accepted[of float_sample gym 7, OF h] h show ?thesis by blast
qed

text \<open>The boundaries of the three steps on the sample values.\<close>

lemma boundaries_on_samples:
  "state (fsm (process_age int_sample gym 7 ''0'') 7) = None"
  "state (fsm (process_age int_sample gym 7 ''151'') 7) = None"
  "state (fsm (process_age int_sample gym 7 ''1'') 7) = Some waiting_weight"
  "state (fsm (process_age int_sample gym 7 ''150'') 7) = Some waiting_weight"
  "state (fsm (process_workouts int_sample gym 7 ''0'') 7) = None"
  "state (fsm (process_workouts int_sample gym 7 ''8'') 7) = None"
  "state (fsm (process_workouts int_sample gym 7 ''1'') 7) = Some waiting_diet"
  "state (fsm (process_workouts int_sample gym 7 ''7'') 7) = Some waiting_diet"
  "state (fsm (process_weight float_sample gym 7 ''500.1'') 7) = None"
  "weight (data (fsm (process_weight float_sample gym 7 ''75,5'') 7)) = Some (Finite 75.5)"
  by (simp_all add: process_age_def process_workouts_def process_weight_def replace_comma_def
        int_sample_def float_sample_def answer_def set_state_def update_data_def gym_def
        cleared_def)

section \<open>Facts about the notification\<close>

lemma send_to_admins_shape:
  "send_to_admins w sender text admins =
     w\<lparr>send_calls := send_calls w @ map (\<lambda>a. (a, text)) admins,
       log_records := log_records w @ map SendFailed (filter (\<lambda>a. \<not> sender a text) admins)\<rparr>"
  by (induction admins arbitrary: w) auto

text \<open>
  The notification only emits: it appends one \<open>send_message\<close> call per operator when
  the bot is set, and log records.
\<close>

lemma notify_shape:
  "\<exists>lg. notify_admins_about_questionnaire w d =
     w\<lparr>send_calls := send_calls w @
          (if bot_instance w = None then []
           else map (\<lambda>a. (a, build_questionnaire_text d)) (admin_ids w)),
       log_records := log_records w @ lg\<rparr>"
proof (cases "admin_ids w = []")
  case True
  then show ?thesis
    by (intro exI[of _ "[]"]) (simp add: notify_admins_about_questionnaire_def)
next
  case False
  show ?thesis
  proof (cases "bot_instance w")
    case None
    with False show ?thesis
      by (intro exI[of _ "[BotNotSet]"]) (simp add: notify_admins_about_questionnaire_def)
  next
    case (Some sender)
    with False show ?thesis
      by (intro exI[of _ "map SendFailed
            (filter (\<lambda>a. \<not> sender a (build_questionnaire_text d)) (admin_ids w))"])
         (simp add: notify_admins_about_questionnaire_def send_to_admins_shape)
  qed
qed

lemma notify_each_shape:
  "\<exists>lg. notify_each w qs ids =
     (ids @ map (\<lambda>d. q_id (d_q d)) qs,
      w\<lparr>send_calls := send_calls w @
           (if bot_instance w = None then []
            else concat (map (\<lambda>d. map (\<lambda>a. (a, build_questionnaire_text d)) (admin_ids w)) qs)),
        log_records := log_records w @ lg\<rparr>)"
proof (induction qs arbitrary: w ids)
  case Nil
  then show ?case by (intro exI[of _ "[]"]) simp
next
  case (Cons d qs)
  obtain lg1 where n1: "notify_admins_about_questionnaire w d =
     w\<lparr>send_calls := send_calls w @
          (if bot_instance w = None then []
           else map (\<lambda>a. (a, build_questionnaire_text d)) (admin_ids w)),
       log_records := log_records w @ lg1\<rparr>" (is "_ = ?w1")
    using notify_shape by blast
  obtain lg2 where n2: "notify_each ?w1 qs (ids @ [q_id (d_q d)]) =
     ((ids @ [q_id (d_q d)]) @ map (\<lambda>d. q_id (d_q d)) qs,
      ?w1\<lparr>send_calls := send_calls ?w1 @
           (if bot_instance ?w1 = None then []
            else concat (map (\<lambda>d. map (\<lambda>a. (a, build_questionnaire_text d)) (admin_ids ?w1)) qs)),
        log_records := log_records ?w1 @ lg2\<rparr>)"
    using Cons.IH by blast
  show ?case
    by (intro exI[of _ "lg1 @ lg2"]) (simp add: n1 n2)
qed

lemma joined_Some:
  "q_user_id q \<in> set (map u_user_id (users w)) \<Longrightarrow>
     \<exists>d. joined w q = Some d \<and> d_q d = q \<and> d_promo_codes d = agg_promo_codes w (q_id q)"
  by (cases "find (\<lambda>u. u_user_id u = q_user_id q) (users w)")
     (auto simp: joined_def find_None_iff)

lemma joined_d_q: "joined w q = Some d \<Longrightarrow> d_q d = q"
  by (auto simp: joined_def)

lemma map_filter_joined:
  "\<forall>q \<in> set xs. q_user_id q \<in> set (map u_user_id (users w)) \<Longrightarrow>
     map d_q (List.map_filter (joined w) xs) = xs"
proof (induction xs)
  case Nil
  then show ?case by (simp add: List.map_filter_simps)
next
  case (Cons q xs)
  then obtain d where "joined w q = Some d" "d_q d = q"
    using joined_Some[of q w] by auto
  with Cons show ?case by (simp add: List.map_filter_simps)
qed

lemma get_new_questionnaires_all:
  assumes "\<forall>q \<in> set (questionnaires w). q_user_id q \<in> set (map u_user_id (users w))"
  shows "mset (map d_q (get_new_questionnaires w)) =
           mset (filter (\<lambda>q. \<not> q_sent_to_admin q) (questionnaires w))"
proof -
  have "map d_q (List.map_filter (joined w) (filter (\<lambda>q. \<not> q_sent_to_admin q) (questionnaires w)))
          = filter (\<lambda>q. \<not> q_sent_to_admin q) (questionnaires w)"
    using assms by (intro map_filter_joined) auto
  then have "mset (map d_q (List.map_filter (joined w)
                 (filter (\<lambda>q. \<not> q_sent_to_admin q) (questionnaires w))))
          = mset (filter (\<lambda>q. \<not> q_sent_to_admin q) (questionnaires w))" by simp
  then show ?thesis
    unfolding get_new_questionnaires_def mset_map mset_rev mset_sort .
qed

lemma mark_all_unsent:
  assumes "\<forall>q \<in> set qs. \<not> q_sent_to_admin q \<longrightarrow> q_id q \<in> set ids"
  shows "list_all q_sent_to_admin
           (map (\<lambda>q. if q_id q \<in> set ids then q\<lparr>q_sent_to_admin := True\<rparr> else q) qs)"
  using assms by (auto simp: list_all_iff)

lemma mark_flag_idem:
  "q_sent_to_admin q \<Longrightarrow> q\<lparr>q_sent_to_admin := True\<rparr> = q"
  by (cases q) simp

lemma get_new_questionnaires_ids:
  assumes "\<forall>q \<in> set (questionnaires w). q_user_id q \<in> set (map u_user_id (users w))"
    and "q \<in> set (questionnaires w)" and "\<not> q_sent_to_admin q"
  shows "q_id q \<in> set (map (\<lambda>d. q_id (d_q d)) (get_new_questionnaires w))"
proof -
  have "q \<in># mset (filter (\<lambda>q. \<not> q_sent_to_admin q) (questionnaires w))"
    using assms(2,3) by simp
  then have "q \<in># mset (map d_q (get_new_questionnaires w))"
    by (simp only: get_new_questionnaires_all[OF assms(1)])
  then have "q \<in> d_q ` set (get_new_questionnaires w)" by simp
  then show ?thesis by auto
qed

lemma sweep_noop:
  "get_new_questionnaires w = [] \<Longrightarrow> send_daily_questionnaires w = w"
  by (simp add: send_daily_questionnaires_def)

lemma sweep_run:
  "get_new_questionnaires w \<noteq> [] \<Longrightarrow>
     send_daily_questionnaires w =
       mark_questionnaires_sent (snd (notify_each w (get_new_questionnaires w) []))
         (map (\<lambda>d. q_id (d_q d)) (get_new_questionnaires w))"
  using notify_each_shape[of w "get_new_questionnaires w" "[]"]
  by (auto simp: send_daily_questionnaires_def Let_def)

lemma sweep_send_calls:
  "send_calls (send_daily_questionnaires w) = send_calls w @
     (if bot_instance w = None then []
      else concat (map (\<lambda>d. map (\<lambda>a. (a, build_questionnaire_text d)) (admin_ids w))
                     (get_new_questionnaires w)))"
proof (cases "get_new_questionnaires w = []")
  case True
  then show ?thesis by (simp add: sweep_noop)
next
  case False
  obtain lg where "notify_each w (get_new_questionnaires w) [] =
     (map (\<lambda>d. q_id (d_q d)) (get_new_questionnaires w),
      w\<lparr>send_calls := send_calls w @
           (if bot_instance w = None then []
            else concat (map (\<lambda>d. map (\<lambda>a. (a, build_questionnaire_text d)) (admin_ids w))
                           (get_new_questionnaires w))),
        log_records := log_records w @ lg\<rparr>)"
    using notify_each_shape[of w "get_new_questionnaires w" "[]"] by auto
  then show ?thesis by (simp add: sweep_run[OF False] mark_questionnaires_sent_def)
qed

lemma sweep_questionnaires:
  assumes "\<forall>q \<in> set (questionnaires w). q_user_id q \<in> set (map u_user_id (users w))"
  shows "questionnaires (send_daily_questionnaires w) =
           map (\<lambda>q. q\<lparr>q_sent_to_admin := True\<rparr>) (questionnaires w)"
proof (cases "get_new_questionnaires w = []")
  case True
  have "q_sent_to_admin q" if "q \<in> set (questionnaires w)" for q
    using get_new_questionnaires_ids[OF assms that] True by auto
  then have "map (\<lambda>q. q\<lparr>q_sent_to_admin := True\<rparr>) (questionnaires w) = questionnaires w"
    by (intro map_idI) (simp add: mark_flag_idem)
  then show ?thesis by (simp add: sweep_noop[OF True])
next
  case False
  obtain lg sc where each: "notify_each w (get_new_questionnaires w) [] =
     (map (\<lambda>d. q_id (d_q d)) (get_new_questionnaires w),
      w\<lparr>send_calls := sc, log_records := lg\<rparr>)"
    using notify_each_shape[of w "get_new_questionnaires w" "[]"] by auto
  have "(if q_id q \<in> set (map (\<lambda>d. q_id (d_q d)) (get_new_questionnaires w))
         then q\<lparr>q_sent_to_admin := True\<rparr> else q) =
            q\<lparr>q_sent_to_admin := True\<rparr>" if "q \<in> set (questionnaires w)" for q
  proof (cases "q_sent_to_admin q")
    case True
    then show ?thesis by (simp add: mark_flag_idem)
  next
    case False
    then show ?thesis using get_new_questionnaires_ids[OF assms that] by simp
  qed
  then show ?thesis
    by (simp add: sweep_run[OF False] each mark_questionnaires_sent_def)
qed

section \<open>The claim about the daily sweep\<close>




section \<open>Facts about the end of the flow\<close>

lemma find_append_fresh:
  "\<forall>x \<in> set xs. \<not> P x \<Longrightarrow> P y \<Longrightarrow> find P (xs @ [y]) = Some y"
  by (induction xs) auto

text \<open>
  The steps of \<open>finish_questionnaire\<close> for a known user and a fresh id: the insert
  returns, the details are found, and so nothing is skipped.
\<close>

lemma finish_steps:
  fixes now :: nat
  assumes "uid \<in> set (map u_user_id (users w))"
    and "questionnaires_id_seq w \<notin> set (map q_id (questionnaires w))"
  defines "qid \<equiv> questionnaires_id_seq w"
  defines "a \<equiv> data (fsm w uid)"
  defines "row \<equiv> \<lparr>q_id = qid, q_user_id = uid, q_gender = gender a, q_age = age a,
      q_weight = weight a, q_workouts_per_week = workouts_per_week a, q_diet = diet a,
      q_problem_or_injury = problem_or_injury a, q_created_at = now,
      q_sent_to_admin = False\<rparr>"
  defines "w1 \<equiv> w\<lparr>questionnaires := questionnaires w @ [row],
                   questionnaires_id_seq := qid + 1\<rparr>"
  defines "w2 \<equiv> snd (attach_user_promo_codes_to_questionnaire w1 uid qid)"
  shows "create_questionnaire w now uid (gender a) (age a) (weight a) (workouts_per_week a)
           (diet a) (problem_or_injury a) = Inr (qid, w1)"
    and "\<exists>new. w2 = w1\<lparr>promo_code_usage := promo_code_usage w @ new\<rparr>
           \<and> list_all (\<lambda>r. pcu_user_id r = uid \<and> pcu_questionnaire_id r = Some qid
                \<and> pcu_promo_code_id r \<in> set (map pc_id (promo_codes w))) new"
    and "\<exists>d. get_questionnaire_details w2 qid = Some d \<and> d_q d = row
           \<and> d_promo_codes d = agg_promo_codes w2 qid
           \<and> finish_questionnaire w now uid =
               Inr (answer (state_clear (mark_questionnaires_sent
                      (notify_admins_about_questionnaire w2 d) [qid]) uid) uid ThankYou)"
proof -
  show c: "create_questionnaire w now uid (gender a) (age a) (weight a) (workouts_per_week a)
           (diet a) (problem_or_injury a) = Inr (qid, w1)"
    using assms(1,2) by (simp add: create_questionnaire_def qid_def w1_def row_def Let_def)
  obtain n where at: "attach_loop w1 uid qid (pending_usages w1 uid) 0 = (n, w2)"
    by (cases "attach_user_promo_codes_to_questionnaire w1 uid qid")
       (simp add: w2_def attach_user_promo_codes_to_questionnaire_def)
  from attach_loop_frame[OF at] obtain new where
    w2: "w2 = w1\<lparr>promo_code_usage := promo_code_usage w1 @ new\<rparr>"
    and new: "list_all (\<lambda>r. pcu_user_id r = uid \<and> pcu_questionnaire_id r = Some qid
                \<and> pcu_promo_code_id r \<in> fst ` set (pending_usages w1 uid)) new"
    by auto
  have ids: "fst ` set (pending_usages w1 uid) \<subseteq> set (map pc_id (promo_codes w))"
    using pending_usages_ids[of w1 uid] by (simp add: w1_def)
  show "\<exists>new. w2 = w1\<lparr>promo_code_usage := promo_code_usage w @ new\<rparr>
           \<and> list_all (\<lambda>r. pcu_user_id r = uid \<and> pcu_questionnaire_id r = Some qid
                \<and> pcu_promo_code_id r \<in> set (map pc_id (promo_codes w))) new"
    using w2 new ids by (intro exI[of _ new]) (auto simp: list_all_iff w1_def)
  have qs2: "questionnaires w2 = questionnaires w @ [row]" and us2: "users w2 = users w"
    by (simp_all add: w2 w1_def)
  have f: "find (\<lambda>q. q_id q = qid) (questionnaires w2) = Some row"
    unfolding qs2 using assms(2) by (intro find_append_fresh) (force simp: qid_def row_def)+
  have "q_user_id row \<in> set (map u_user_id (users w2))"
    using assms(1) by (simp add: us2 row_def)
  from joined_Some[OF this] obtain d where
    d: "joined w2 row = Some d" "d_q d = row" "d_promo_codes d = agg_promo_codes w2 (q_id row)"
    by blast
  have det: "get_questionnaire_details w2 qid = Some d"
    by (simp add: get_questionnaire_details_def f d)
  have "finish_questionnaire w now uid =
               Inr (answer (state_clear (mark_questionnaires_sent
                      (notify_admins_about_questionnaire w2 d) [qid]) uid) uid ThankYou)"
    using c det unfolding finish_questionnaire_def a_def[symmetric] w2_def[symmetric]
    by (simp add: Let_def w2_def[symmetric])
  with det d show "\<exists>d. get_questionnaire_details w2 qid = Some d \<and> d_q d = row
           \<and> d_promo_codes d = agg_promo_codes w2 qid
           \<and> finish_questionnaire w now uid =
               Inr (answer (state_clear (mark_questionnaires_sent
                      (notify_admins_about_questionnaire w2 d) [qid]) uid) uid ThankYou)"
    by (intro exI[of _ d]) (simp add: row_def)
qed




lemma mark_one:
  "questionnaires (mark_questionnaires_sent w [qid]) =
     map (\<lambda>q. if q_id q = qid then q\<lparr>q_sent_to_admin := True\<rparr> else q) (questionnaires w)"
  by (simp add: mark_questionnaires_sent_def)

section \<open>The claims about the end of the flow\<close>

text \<open>
  C10. With no operator configured, the end of the flow (for a known user and a
  fresh id) sends nothing and still marks the new questionnaire as sent; and the
  daily sweep sends nothing and still marks every questionnaire as sent.
\<close>

theorem no_operators_still_marked:
  fixes now :: nat
  assumes "admin_ids w = []"
    and "uid \<in> set (map u_user_id (users w))"
    and "questionnaires_id_seq w \<notin> set (map q_id (questionnaires w))"
    and "\<forall>q \<in> set (questionnaires w). q_user_id q \<in> set (map u_user_id (users w))"
  shows "(\<exists>w'. finish_questionnaire w now uid = Inr w'
            \<and> send_calls w' = send_calls w
            \<and> (\<exists>q. questionnaires w' = questionnaires w @ [q]
                  \<and> q_id q = questionnaires_id_seq w \<and> q_user_id q = uid
                  \<and> q_sent_to_admin q))
       \<and> send_calls (send_daily_questionnaires w) = send_calls w
       \<and> questionnaires (send_daily_questionnaires w) =
           map (\<lambda>q. q\<lparr>q_sent_to_admin := True\<rparr>) (questionnaires w)"
proof -
  let ?qid = "questionnaires_id_seq w"
  define w1 where "w1 = w\<lparr>questionnaires := questionnaires w @
           [\<lparr>q_id = ?qid, q_user_id = uid, q_gender = gender (data (fsm w uid)),
             q_age = age (data (fsm w uid)), q_weight = weight (data (fsm w uid)),
             q_workouts_per_week = workouts_per_week (data (fsm w uid)),
             q_diet = diet (data (fsm w uid)),
             q_problem_or_injury = problem_or_injury (data (fsm w uid)),
             q_created_at = now, q_sent_to_admin = False\<rparr>],
           questionnaires_id_seq := ?qid + 1\<rparr>"
  define w2 where "w2 = snd (attach_user_promo_codes_to_questionnaire w1 uid ?qid)"
  from finish_steps(2)[OF assms(2,3), of now] obtain new where
    w2: "w2 = w1\<lparr>promo_code_usage := promo_code_usage w @ new\<rparr>"
    unfolding w2_def w1_def by blast
  from finish_steps(3)[OF assms(2,3), of now] obtain d where
    fin: "finish_questionnaire w now uid =
            Inr (answer (state_clear (mark_questionnaires_sent
                   (notify_admins_about_questionnaire w2 d) [?qid]) uid) uid ThankYou)"
    unfolding w2_def w1_def by blast
  have n: "notify_admins_about_questionnaire w2 d = w2"
    using assms(1) by (simp add: notify_admins_about_questionnaire_def w2 w1_def)
  have old: "map (\<lambda>q. if q_id q = ?qid then q\<lparr>q_sent_to_admin := True\<rparr> else q)
               (questionnaires w) = questionnaires w"
    using assms(3) by (intro map_idI) force
  have "send_calls (answer (state_clear (mark_questionnaires_sent w2 [?qid]) uid) uid ThankYou)
          = send_calls w"
    by (simp add: answer_def state_clear_def mark_questionnaires_sent_def w2 w1_def)
  moreover have "\<exists>q. questionnaires (answer (state_clear (mark_questionnaires_sent w2 [?qid])
                     uid) uid ThankYou) = questionnaires w @ [q]
                  \<and> q_id q = ?qid \<and> q_user_id q = uid \<and> q_sent_to_admin q"
    by (simp add: answer_def state_clear_def mark_one w2 w1_def old)
  ultimately have first: "\<exists>w'. finish_questionnaire w now uid = Inr w'
            \<and> send_calls w' = send_calls w
            \<and> (\<exists>q. questionnaires w' = questionnaires w @ [q]
                  \<and> q_id q = questionnaires_id_seq w \<and> q_user_id q = uid
                  \<and> q_sent_to_admin q)"
    using fin n by simp
  have "send_calls (send_daily_questionnaires w) = send_calls w"
    using sweep_send_calls[of w] assms(1) by simp
  with first sweep_questionnaires[OF assms(4)] show ?thesis by blast
qed

theorem no_operators_still_marked_witness:
  "admin_ids gym_unattended = []
   \<and> 7 \<in> set (map u_user_id (users gym_unattended))
   \<and> questionnaires_id_seq gym_unattended \<notin> set (map q_id (questionnaires gym_unattended))
   \<and> send_calls (send_daily_questionnaires gym_unattended) = []
   \<and> map q_sent_to_admin (questionnaires (send_daily_questionnaires gym_unattended)) =
       [True, True]
   \<and> (\<exists>w'. finish_questionnaire gym_unattended 9 7 = Inr w' \<and> send_calls w' = []
         \<and> map q_sent_to_admin (questionnaires w') = [False, False, True])"
proof -
  have a: "admin_ids gym_unattended = []" by (simp add: gym_unattended_def)
  have u: "7 \<in> set (map u_user_id (users gym_unattended))"
    by (simp add: gym_unattended_def gym_defs)
  have f: "questionnaires_id_seq gym_unattended \<notin> set (map q_id (questionnaires gym_unattended))"
    by (simp add: gym_unattended_def gym_defs)
  have fk: "\<forall>q \<in> set (questionnaires gym_unattended).
              q_user_id q \<in> set (map u_user_id (users gym_unattended))"
    by (simp add: gym_unattended_def gym_defs)
  have s: "send_calls gym_unattended = []"
    and q: "map q_sent_to_admin (questionnaires gym_unattended) = [False, False]"
    by (simp_all add: gym_unattended_def gym_defs)
  note t = no_operators_still_marked[OF a u f fk, of 9]
  from t obtain w' qn where "finish_questionnaire gym_unattended 9 7 = Inr w'"
    "send_calls w' = send_calls gym_unattended"
    "questionnaires w' = questionnaires gym_unattended @ [qn]" "q_sent_to_admin qn"
    by blast
  then have fin: "\<exists>w'. finish_questionnaire gym_unattended 9 7 = Inr w' \<and> send_calls w' = []
         \<and> map q_sent_to_admin (questionnaires w') = [False, False, True]"
    using s q by auto
  have "send_calls (send_daily_questionnaires gym_unattended) = []" using t s by simp
  moreover have "map q_sent_to_admin (questionnaires (send_daily_questionnaires gym_unattended))
      = [True, True]"
    using t by (simp add: gym_unattended_def gym_defs)
  ultimately show ?thesis using a u f fin by blast
qed




end
